theory Spec2Isabelle
  imports Main "HOL-Library.Sublist" "HOL-Library.Multiset"
begin

section \<open>Python values and exceptions\<close>

text \<open>
  The exceptions that the modelled part of \<^verbatim>\<open>Daily_WeatherNONinf.py\<close> can raise. A function
  that may raise returns \<open>py_error + 'a\<close>, with \<open>Inl\<close> for the exception.
\<close>

datatype py_error = TypeError | AttributeError | KeyError | ValueError

text \<open>
  What \<^verbatim>\<open>response.json()\<close> can return. Text is a list of code points below 256. A dict is
  an association list in insertion order, read with \<open>map_of\<close>. A Python float is kept
  abstract: the program observes a float only through \<^verbatim>\<open>bool()\<close> and \<^verbatim>\<open>repr()\<close>, which
  are the two fields of \<open>PFloat\<close>.
\<close>

datatype pyval =
    PNone
  | PBool bool
  | PInt int
  | PFloat bool string
  | PStr string
  | PList "pyval list"
  | PDict "(string \<times> pyval) list"

fun py_truthy :: "pyval \<Rightarrow> bool" where
  "py_truthy PNone = False"
| "py_truthy (PBool b) = b"
| "py_truthy (PInt i) = (i \<noteq> 0)"
| "py_truthy (PFloat nonzero r) = nonzero"
| "py_truthy (PStr s) = (s \<noteq> [])"
| "py_truthy (PList xs) = (xs \<noteq> [])"
| "py_truthy (PDict kvs) = (kvs \<noteq> [])"

text \<open>\<^verbatim>\<open>a or b\<close>\<close>

definition py_or :: "pyval \<Rightarrow> pyval \<Rightarrow> pyval" where
  "py_or a b = (if py_truthy a then a else b)"

text \<open>\<^verbatim>\<open>d.get(k)\<close> and \<^verbatim>\<open>d.get(k, default)\<close> on a dict\<close>

definition dict_get :: "(string \<times> pyval) list \<Rightarrow> string \<Rightarrow> pyval" where
  "dict_get kvs k = (case map_of kvs k of None \<Rightarrow> PNone | Some v \<Rightarrow> v)"

definition dict_get_default :: "(string \<times> pyval) list \<Rightarrow> string \<Rightarrow> pyval \<Rightarrow> pyval" where
  "dict_get_default kvs k dflt = (case map_of kvs k of None \<Rightarrow> dflt | Some v \<Rightarrow> v)"

subsection \<open>Decimal digits, \<^verbatim>\<open>str\<close> of an int, the format \<^verbatim>\<open>03d\<close>\<close>

fun nat_digits :: "nat \<Rightarrow> string" where
  "nat_digits n =
     (if n < 10 then [char_of (48 + n)]
      else nat_digits (n div 10) @ [char_of (48 + n mod 10)])"

declare nat_digits.simps [simp del]

definition str_int :: "int \<Rightarrow> string" where
  "str_int i = (if i < 0 then CHR ''-'' # nat_digits (nat (- i)) else nat_digits (nat i))"

definition zfill :: "nat \<Rightarrow> string \<Rightarrow> string" where
  "zfill w s = replicate (w - length s) CHR ''0'' @ s"

text \<open>The sign takes one of the three columns, as Python's sign-aware zero padding does.\<close>

definition format_03d :: "int \<Rightarrow> string" where
  "format_03d i =
     (if i < 0 then CHR ''-'' # zfill 2 (nat_digits (nat (- i)))
      else zfill 3 (nat_digits (nat i)))"

definition format_02d :: "int \<Rightarrow> string" where
  "format_02d i =
     (if i < 0 then CHR ''-'' # zfill 1 (nat_digits (nat (- i)))
      else zfill 2 (nat_digits (nat i)))"

subsection \<open>\<^verbatim>\<open>repr\<close>, \<^verbatim>\<open>str\<close> and \<^verbatim>\<open>str.lower\<close>\<close>

definition hex_digit :: "nat \<Rightarrow> char" where
  "hex_digit n = (if n < 10 then char_of (48 + n) else char_of (87 + n))"

text \<open>
  Code points that \<^verbatim>\<open>repr\<close> copies unchanged: the printable ones, that is everything from
  the space on except DEL, the C1 controls, the no-break space and the soft hyphen.
\<close>

definition printable :: "char \<Rightarrow> bool" where
  "printable c =
     (let n = (of_char c :: nat)
      in 32 \<le> n \<and> n \<noteq> 127 \<and> \<not> (128 \<le> n \<and> n \<le> 160) \<and> n \<noteq> 173)"

definition repr_char :: "char \<Rightarrow> char \<Rightarrow> string" where
  "repr_char quote c =
     (if c = quote \<or> c = CHR 0x5C then [CHR 0x5C, c]
      else if c = CHR 0x09 then [CHR 0x5C, CHR ''t'']
      else if c = CHR 0x0A then [CHR 0x5C, CHR ''n'']
      else if c = CHR 0x0D then [CHR 0x5C, CHR ''r'']
      else if printable c then [c]
      else [CHR 0x5C, CHR ''x'', hex_digit ((of_char c :: nat) div 16),
            hex_digit ((of_char c :: nat) mod 16)])"

definition str_repr :: "string \<Rightarrow> string" where
  "str_repr s =
     (let quote = (if CHR 0x27 \<in> set s \<and> CHR 0x22 \<notin> set s then CHR 0x22 else CHR 0x27)
      in quote # concat (map (repr_char quote) s) @ [quote])"

fun join :: "string \<Rightarrow> string list \<Rightarrow> string" where
  "join sep [] = []"
| "join sep [x] = x"
| "join sep (x # y # ys) = x @ sep @ join sep (y # ys)"

fun py_repr :: "pyval \<Rightarrow> string" where
  "py_repr PNone = ''None''"
| "py_repr (PBool b) = (if b then ''True'' else ''False'')"
| "py_repr (PInt i) = str_int i"
| "py_repr (PFloat nonzero r) = r"
| "py_repr (PStr s) = str_repr s"
| "py_repr (PList xs) = ''['' @ join '', '' (map py_repr xs) @ '']''"
| "py_repr (PDict kvs) =
     ''{'' @ join '', '' (map (\<lambda>kv. str_repr (fst kv) @ '': '' @ py_repr (snd kv)) kvs) @ ''}''"

definition py_str :: "pyval \<Rightarrow> string" where
  "py_str v = (case v of PStr s \<Rightarrow> s | _ \<Rightarrow> py_repr v)"

text \<open>
  \<^verbatim>\<open>str.lower\<close> below code point 256: the upper-case letters are A to Z and the Latin-1
  capitals 0xC0 to 0xDE without the multiplication sign 0xD7; each moves up by 32.
\<close>

definition lower_char :: "char \<Rightarrow> char" where
  "lower_char c =
     (let n = (of_char c :: nat)
      in if (65 \<le> n \<and> n \<le> 90) \<or> (192 \<le> n \<and> n \<le> 222 \<and> n \<noteq> 215)
         then char_of (n + 32) else c)"

definition py_lower :: "string \<Rightarrow> string" where
  "py_lower s = map lower_char s"

section \<open>Dates\<close>

text \<open>
  A naive \<^verbatim>\<open>datetime\<close>, as \<^verbatim>\<open>datetime.now()\<close> and \<^verbatim>\<open>datetime(y, m, d)\<close> build it. The day
  arithmetic is that of the \<^verbatim>\<open>datetime\<close> module: proleptic Gregorian ordinals, with day 1
  the first of January of year 1.
\<close>

record datetime =
  year :: int
  month :: int
  day :: int
  hour :: int
  minute :: int
  second :: int
  microsecond :: int

definition is_leap :: "int \<Rightarrow> bool" where
  "is_leap y = (y mod 4 = 0 \<and> (y mod 100 \<noteq> 0 \<or> y mod 400 = 0))"

definition days_in_month :: "int \<Rightarrow> int \<Rightarrow> int" where
  "days_in_month y m =
     (if m = 2 then (if is_leap y then 29 else 28)
      else if m = 4 \<or> m = 6 \<or> m = 9 \<or> m = 11 then 30 else 31)"

definition days_before_year :: "int \<Rightarrow> int" where
  "days_before_year y = (y - 1) * 365 + (y - 1) div 4 - (y - 1) div 100 + (y - 1) div 400"

definition days_before_month :: "int \<Rightarrow> int \<Rightarrow> int" where
  "days_before_month y m =
     [0, 31, 59, 90, 120, 151, 181, 212, 243, 273, 304, 334] ! nat (m - 1)
       + (if m > 2 \<and> is_leap y then 1 else 0)"

definition ymd2ord :: "int \<Rightarrow> int \<Rightarrow> int \<Rightarrow> int" where
  "ymd2ord y m d = days_before_year y + days_before_month y m + d"

definition toordinal :: "datetime \<Rightarrow> int" where
  "toordinal dt = ymd2ord (year dt) (month dt) (day dt)"

text \<open>The invariant of every \<^verbatim>\<open>datetime\<close> object: the constructor admits nothing else.\<close>

definition valid_datetime :: "datetime \<Rightarrow> bool" where
  "valid_datetime dt =
     (1 \<le> year dt \<and> year dt \<le> 9999 \<and> 1 \<le> month dt \<and> month dt \<le> 12 \<and>
      1 \<le> day dt \<and> day dt \<le> days_in_month (year dt) (month dt) \<and>
      0 \<le> hour dt \<and> hour dt < 24 \<and> 0 \<le> minute dt \<and> minute dt < 60 \<and>
      0 \<le> second dt \<and> second dt < 60 \<and> 0 \<le> microsecond dt \<and> microsecond dt < 1000000)"

text \<open>\<^verbatim>\<open>datetime(y, m, d)\<close>: midnight of that day, or ValueError outside the calendar.\<close>

definition datetime_ymd :: "int \<Rightarrow> int \<Rightarrow> int \<Rightarrow> py_error + datetime" where
  "datetime_ymd y m d =
     (if 1 \<le> y \<and> y \<le> 9999 \<and> 1 \<le> m \<and> m \<le> 12 \<and> 1 \<le> d \<and> d \<le> days_in_month y m
      then Inr \<lparr>year = y, month = m, day = d, hour = 0, minute = 0, second = 0, microsecond = 0\<rparr>
      else Inl ValueError)"

text \<open>
  \<^verbatim>\<open>(a - b).days\<close> for two naive datetimes: the difference is normalised so that its
  seconds and microseconds are not negative, hence the floor.
\<close>

definition sub_days :: "datetime \<Rightarrow> datetime \<Rightarrow> int" where
  "sub_days a b =
     (let secs = (second a + minute a * 60 + hour a * 3600)
                   - (second b + minute b * 60 + hour b * 3600);
          us = microsecond a - microsecond b
      in (toordinal a - toordinal b) + (secs * 1000000 + us) div (86400 * 1000000))"

text \<open>\<^verbatim>\<open>strftime('%Y-%m-%d')\<close>, the year in four digits as the library documents it.\<close>

definition strftime_ymd :: "datetime \<Rightarrow> string" where
  "strftime_ymd dt =
     zfill 4 (str_int (year dt)) @ ''-'' @ format_02d (month dt) @ ''-'' @ format_02d (day dt)"

section \<open>The fiscal date code\<close>

definition get_prophix_date :: "datetime \<Rightarrow> py_error + string" where
  "get_prophix_date date_obj =
     (let start_year = (if month date_obj \<ge> 5 then year date_obj else year date_obj - 1)
      in case datetime_ymd start_year 5 1 of
           Inl e \<Rightarrow> Inl e
         | Inr fiscal_start \<Rightarrow>
             (let day_num = sub_days date_obj fiscal_start + 1
              in Inr (str_int start_year @ ''D'' @ format_03d day_num)))"

text \<open>The fiscal year and the day number as the specification words them.\<close>

definition fiscal_year :: "datetime \<Rightarrow> int" where
  "fiscal_year d = (if 5 \<le> month d then year d else year d - 1)"

definition day_number :: "datetime \<Rightarrow> int" where
  "day_number d = ymd2ord (year d) (month d) (day d) - ymd2ord (fiscal_year d) 5 1 + 1"

section \<open>The mapper\<close>

subsection \<open>Operations on the payload\<close>

text \<open>\<^verbatim>\<open>k in v\<close> for a string \<open>k\<close>: a key of a dict, an element of a list, a substring of a string.\<close>

fun py_contains :: "string \<Rightarrow> pyval \<Rightarrow> py_error + bool" where
  "py_contains k (PDict kvs) = Inr (map_of kvs k \<noteq> None)"
| "py_contains k (PList xs) = Inr (PStr k \<in> set xs)"
| "py_contains k (PStr s) = Inr (sublist k s)"
| "py_contains k v = Inl TypeError"

text \<open>\<^verbatim>\<open>v[k]\<close> for a string \<open>k\<close>: lists and strings take integer indices only.\<close>

fun py_getitem :: "pyval \<Rightarrow> string \<Rightarrow> py_error + pyval" where
  "py_getitem (PDict kvs) k = (case map_of kvs k of None \<Rightarrow> Inl KeyError | Some v \<Rightarrow> Inr v)"
| "py_getitem v k = Inl TypeError"

text \<open>What a \<^verbatim>\<open>for\<close> loop over the value visits: a dict gives its keys, a string its characters.\<close>

fun py_iter :: "pyval \<Rightarrow> py_error + pyval list" where
  "py_iter (PList xs) = Inr xs"
| "py_iter (PDict kvs) = Inr (map (\<lambda>kv. PStr (fst kv)) kvs)"
| "py_iter (PStr s) = Inr (map (\<lambda>c. PStr [c]) s)"
| "py_iter v = Inl TypeError"

subsection \<open>Station matching\<close>

type_synonym station = "(string \<times> pyval) list"

text \<open>\<^verbatim>\<open>str(row.get('display_name', '')).lower()\<close>\<close>

definition d_name :: "station \<Rightarrow> string" where
  "d_name row = py_lower (py_str (dict_get_default row ''display_name'' (PStr [])))"

text \<open>\<^verbatim>\<open>any(k in d_name for k in keywords)\<close>\<close>

definition any_keyword :: "string list \<Rightarrow> string \<Rightarrow> bool" where
  "any_keyword keywords s = list_ex (\<lambda>k. sublist k s) keywords"

text \<open>
  The scan of \<^verbatim>\<open>rows_data\<close> that stops at the first hit, both as the \<^verbatim>\<open>for\<close> loop with
  \<^verbatim>\<open>break\<close> and as \<^verbatim>\<open>next(r for r in rows_data if ...)\<close>. Only a dict has \<^verbatim>\<open>get\<close>: any
  other element met before the hit raises AttributeError.
\<close>

fun first_match :: "string list \<Rightarrow> pyval list \<Rightarrow> py_error + station option" where
  "first_match keywords [] = Inr None"
| "first_match keywords (PDict row # rows) =
     (if any_keyword keywords (d_name row) then Inr (Some row)
      else first_match keywords rows)"
| "first_match keywords (v # rows) = Inl AttributeError"

text \<open>\<^verbatim>\<open>next(..., {})\<close>: the empty dict when nothing matches.\<close>

definition next_or_empty :: "string \<Rightarrow> pyval list \<Rightarrow> py_error + station" where
  "next_or_empty keyword rows =
     (case first_match [keyword] rows of
        Inl e \<Rightarrow> Inl e
      | Inr None \<Rightarrow> Inr []
      | Inr (Some row) \<Rightarrow> Inr row)"

subsection \<open>The Raymer merge\<close>

definition raymer_merged :: "station \<Rightarrow> station \<Rightarrow> station" where
  "raymer_merged raymer_temp_node raymer_wind_node =
     [(''display_name'', PStr ''Raymer''),
      (''maxtemp'', dict_get raymer_temp_node ''maxtemp''),
      (''mintemp'', dict_get raymer_temp_node ''mintemp''),
      (''avewindspd'', dict_get raymer_wind_node ''avewindspd''),
      (''maxgust'', dict_get raymer_wind_node ''maxgust''),
      (''ttlwindmiles'', dict_get raymer_wind_node ''ttlwindmiles''),
      (''newsnow'', py_or (dict_get raymer_temp_node ''newsnow'')
                         (dict_get raymer_wind_node ''newsnow'')),
      (''depth'', py_or (dict_get raymer_temp_node ''depth'')
                       (dict_get raymer_wind_node ''depth'')),
      (''ttlsnowfall'', py_or (dict_get raymer_temp_node ''ttlsnowfall'')
                             (dict_get raymer_wind_node ''ttlsnowfall''))]"

subsection \<open>Targets and rows\<close>

definition target_defs :: "(string \<times> string list \<times> bool) list" where
  "target_defs =
     [(''Summit'', [''summit''], False),
      (''RV_Bowl'', [''rbowl'', ''rendezvous bowl''], False),
      (''Raymer'', [], True),
      (''MidMtn'', [''mid mtn'', ''mid mountain''], False),
      (''Buff'', [''buff''], False),
      (''Base'', [''base''], False)]"

text \<open>One row of the returned table; \<open>SnoFall_Tot\<close> is the column \<^verbatim>\<open>SnoFall Tot\<close>, and so on.\<close>

record output_row =
  ProphixDate :: string
  Date :: string
  Location :: string
  NewSno :: pyval
  SnoDepth :: pyval
  SnoFall_Tot :: pyval
  Max_Temp :: pyval
  Min_Temp :: pyval
  AvgWind :: pyval
  MaxGust :: pyval
  TotalWind :: pyval

definition new_row :: "string \<Rightarrow> string \<Rightarrow> string \<Rightarrow> station \<Rightarrow> output_row" where
  "new_row prophix_date date_str target_name found_station =
     \<lparr>ProphixDate = prophix_date,
      Date = date_str,
      Location = target_name,
      NewSno = dict_get_default found_station ''newsnow'' (PStr []),
      SnoDepth = dict_get_default found_station ''depth'' (PStr []),
      SnoFall_Tot = dict_get_default found_station ''ttlsnowfall'' (PStr []),
      Max_Temp = dict_get_default found_station ''maxtemp'' (PStr []),
      Min_Temp = dict_get_default found_station ''mintemp'' (PStr []),
      AvgWind = dict_get_default found_station ''avewindspd'' (PStr []),
      MaxGust = dict_get_default found_station ''maxgust'' (PStr []),
      TotalWind = dict_get_default found_station ''ttlwindmiles'' (PStr [])\<rparr>"

text \<open>The station of one target: the merged record for Raymer, the scan for the others.\<close>

definition find_station ::
  "station \<Rightarrow> pyval list \<Rightarrow> string \<times> string list \<times> bool \<Rightarrow> py_error + station option" where
  "find_station merged rows_data t =
     (case t of (target_name, keywords, is_merged) \<Rightarrow>
        if is_merged \<and> target_name = ''Raymer'' then Inr (Some merged)
        else first_match keywords rows_data)"

text \<open>
  The loop over the targets. \<^verbatim>\<open>if found_station:\<close> tests the truth value of the station,
  so a found dict yields a row only when it is not empty.
\<close>

fun scan_targets ::
  "string \<Rightarrow> string \<Rightarrow> station \<Rightarrow> pyval list \<Rightarrow> (string \<times> string list \<times> bool) list
     \<Rightarrow> output_row list \<Rightarrow> py_error + output_row list" where
  "scan_targets prophix_date date_str merged rows_data [] extracted_rows = Inr extracted_rows"
| "scan_targets prophix_date date_str merged rows_data (t # ts) extracted_rows =
     (case find_station merged rows_data t of
        Inl e \<Rightarrow> Inl e
      | Inr found_station \<Rightarrow>
          (case found_station of
             Some st \<Rightarrow>
               if st \<noteq> []
               then scan_targets prophix_date date_str merged rows_data ts
                      (extracted_rows @ [new_row prophix_date date_str (fst t) st])
               else scan_targets prophix_date date_str merged rows_data ts extracted_rows
           | None \<Rightarrow> scan_targets prophix_date date_str merged rows_data ts extracted_rows))"

text \<open>
  The returned \<^verbatim>\<open>DataFrame\<close> is the list of rows it is built from; the empty frame is the
  empty list.
\<close>

definition process_data :: "pyval \<Rightarrow> datetime \<Rightarrow> py_error + output_row list" where
  "process_data json_payload date_obj =
     (if \<not> py_truthy json_payload then Inr []
      else case py_contains ''data'' json_payload of
        Inl e \<Rightarrow> Inl e
      | Inr has_data \<Rightarrow>
          if \<not> has_data then Inr []
          else case py_getitem json_payload ''data'' of
            Inl e \<Rightarrow> Inl e
          | Inr rows_data \<Rightarrow>
          case get_prophix_date date_obj of
            Inl e \<Rightarrow> Inl e
          | Inr prophix_date \<Rightarrow>
          case py_iter rows_data of
            Inl e \<Rightarrow> Inl e
          | Inr rows \<Rightarrow>
          case next_or_empty ''raymer 9,360'' rows of
            Inl e \<Rightarrow> Inl e
          | Inr raymer_temp_node \<Rightarrow>
          case next_or_empty ''raymer wind'' rows of
            Inl e \<Rightarrow> Inl e
          | Inr raymer_wind_node \<Rightarrow>
              scan_targets prophix_date (strftime_ymd date_obj)
                (raymer_merged raymer_temp_node raymer_wind_node) rows target_defs [])"

section \<open>The writer\<close>

text \<open>
  What is at \<^verbatim>\<open>CSV_FILE_PATH\<close>: nothing, or a regular file with its records, which another
  process may hold locked. A record is one serialised row; how \<^verbatim>\<open>to_csv\<close> serialises the
  cells of a row is the library's business and a parameter here.
\<close>

datatype csv_file = Absent | RegularFile bool "string list"

record world =
  csv :: csv_file
  log :: "string list"

definition cols :: "string list" where
  "cols = [''ProphixDate'', ''Date'', ''Location'', ''NewSno'', ''SnoDepth'', ''SnoFall Tot'',
           ''Max Temp'', ''Min Temp'', ''AvgWind'', ''MaxGust'', ''TotalWind'']"

text \<open>\<^verbatim>\<open>os.path.isfile(CSV_FILE_PATH)\<close>\<close>

fun isfile :: "csv_file \<Rightarrow> bool" where
  "isfile Absent = False"
| "isfile (RegularFile locked recs) = True"

datatype io_error = PermissionError

text \<open>\<^verbatim>\<open>df.to_csv(path, mode='a', header=..., index=False)\<close>\<close>

fun to_csv ::
  "(output_row \<Rightarrow> string) \<Rightarrow> output_row list \<Rightarrow> bool \<Rightarrow> csv_file \<Rightarrow> io_error + csv_file" where
  "to_csv fmt df header (RegularFile True recs) = Inl PermissionError"
| "to_csv fmt df header (RegularFile False recs) =
     Inr (RegularFile False (recs @ (if header then [join '','' cols] else []) @ map fmt df))"
| "to_csv fmt df header Absent =
     Inr (RegularFile False ((if header then [join '','' cols] else []) @ map fmt df))"

definition write_log :: "string \<Rightarrow> world \<Rightarrow> world" where
  "write_log message w = w\<lparr>log := log w @ [message]\<rparr>"

text \<open>
  \<^verbatim>\<open>main\<close>, with the result of \<^verbatim>\<open>get_btac_data()\<close> as an input: \<open>None\<close> is the pair
  \<^verbatim>\<open>(None, None)\<close> of a failed request. Every row of \<^verbatim>\<open>process_data\<close> has all the columns
  of \<open>cols\<close> in that order, so filling and reordering the columns changes nothing. An
  exception of \<^verbatim>\<open>process_data\<close> is not caught and ends the run.
\<close>

definition main ::
  "(output_row \<Rightarrow> string) \<Rightarrow> (pyval \<times> datetime) option \<Rightarrow> world \<Rightarrow> py_error + world" where
  "main fmt fetched w0 =
     (let w = write_log ''Starting Daily Scrape...'' w0
      in case fetched of
           None \<Rightarrow> Inr (write_log ''API request failed (Check internet or URL).'' w)
         | Some (data, date_obj) \<Rightarrow>
             if \<not> py_truthy data
             then Inr (write_log ''API request failed (Check internet or URL).'' w)
             else case process_data data date_obj of
               Inl e \<Rightarrow> Inl e
             | Inr df_new \<Rightarrow>
                 if df_new \<noteq> [] then
                   (let file_exists = isfile (csv w)
                    in case to_csv fmt df_new (\<not> file_exists) (csv w) of
                         Inr f \<Rightarrow>
                           Inr (write_log (''SUCCESS: Appended '' @ str_int (int (length df_new))
                                  @ '' rows for '' @ strftime_ymd date_obj @ ''.'')
                                (w\<lparr>csv := f\<rparr>))
                       | Inl PermissionError \<Rightarrow>
                           Inr (write_log
                                  ''ERROR: Could not write to BTAC_History.csv. Is the Excel file open?''
                                  w))
                 else Inr (write_log ''No data rows matched the target stations.'' w))"

section \<open>Notions of the specification\<close>

text \<open>
  The first record, in payload order, whose lower-cased display name contains at least one
  of the keywords.
\<close>

definition first_station :: "string list \<Rightarrow> station list \<Rightarrow> station option" where
  "first_station keywords stations = find (\<lambda>row. any_keyword keywords (d_name row)) stations"

text \<open>
  The calendar itself, for counting days one at a time: the day after a date, and the
  dates of the calendar (a month from 1 to 12 and a day of that month).
\<close>

definition next_day :: "int \<times> int \<times> int \<Rightarrow> int \<times> int \<times> int" where
  "next_day ymd =
     (case ymd of (y, m, d) \<Rightarrow>
        if d < days_in_month y m then (y, m, d + 1)
        else if m < 12 then (y, m + 1, 1)
        else (y + 1, 1, 1))"

definition calendar_date :: "int \<times> int \<times> int \<Rightarrow> bool" where
  "calendar_date ymd =
     (case ymd of (y, m, d) \<Rightarrow> 1 \<le> m \<and> m \<le> 12 \<and> 1 \<le> d \<and> d \<le> days_in_month y m)"

definition ordinal :: "int \<times> int \<times> int \<Rightarrow> int" where
  "ordinal ymd = (case ymd of (y, m, d) \<Rightarrow> ymd2ord y m d)"

text \<open>The two sources of the Raymer record; the empty record stands in for a missing one.\<close>

definition temp_source :: "station list \<Rightarrow> station" where
  "temp_source stations =
     (case first_station [''raymer 9,360''] stations of None \<Rightarrow> [] | Some row \<Rightarrow> row)"

definition wind_source :: "station list \<Rightarrow> station" where
  "wind_source stations =
     (case first_station [''raymer wind''] stations of None \<Rightarrow> [] | Some row \<Rightarrow> row)"

text \<open>The rows that one target contributes, for a payload whose records are all dicts.\<close>

definition target_rows ::
  "string \<Rightarrow> string \<Rightarrow> station list \<Rightarrow> string \<times> string list \<times> bool \<Rightarrow> output_row list" where
  "target_rows prophix_date date_str stations t =
     (if snd (snd t) \<and> fst t = ''Raymer''
      then [new_row prophix_date date_str (fst t)
              (raymer_merged (temp_source stations) (wind_source stations))]
      else case first_station (fst (snd t)) stations of
             None \<Rightarrow> []
           | Some row \<Rightarrow> [new_row prophix_date date_str (fst t) row])"

text \<open>A payload that is a JSON object whose \<^verbatim>\<open>data\<close> is a list of JSON objects.\<close>

definition payload_of :: "(string \<times> pyval) list \<Rightarrow> station list \<Rightarrow> bool" where
  "payload_of kvs stations = (map_of kvs ''data'' = Some (PList (map PDict stations)))"

section \<open>Concrete inputs\<close>

definition dt :: "int \<Rightarrow> int \<Rightarrow> int \<Rightarrow> datetime" where
  "dt y m d = \<lparr>year = y, month = m, day = d, hour = 5, minute = 30, second = 0, microsecond = 0\<rparr>"

definition summit_station :: station where
  "summit_station = [(''display_name'', PStr ''Summit 10,450''), (''maxtemp'', PInt 20)]"

definition rv_upper_station :: station where
  "rv_upper_station = [(''display_name'', PStr ''RENDEZVOUS BOWL Upper''), (''depth'', PInt 55)]"

definition rv_lower_station :: station where
  "rv_lower_station = [(''display_name'', PStr ''Rendezvous Bowl Lower''), (''depth'', PInt 40)]"

definition midmtn_station :: station where
  "midmtn_station = [(''display_name'', PStr ''Mid Mtn 8,180''), (''mintemp'', PInt 4)]"

definition base_station :: station where
  "base_station = [(''display_name'', PStr ''Base 6,510''), (''newsnow'', PStr ''2'')]"

definition raymer_temp_station :: station where
  "raymer_temp_station =
     [(''display_name'', PStr ''Raymer 9,360''), (''maxtemp'', PInt 10), (''mintemp'', PInt (- 3))]"

definition raymer_wind_station :: station where
  "raymer_wind_station =
     [(''display_name'', PStr ''Raymer Wind''), (''avewindspd'', PInt 12), (''maxgust'', PInt 40),
      (''ttlwindmiles'', PInt 200)]"

text \<open>A temperature station that reports no new snow as the number 0.\<close>

definition raymer_temp_zero :: station where
  "raymer_temp_zero =
     [(''display_name'', PStr ''Raymer 9,360''), (''maxtemp'', PInt 10), (''newsnow'', PInt 0)]"

definition raymer_wind_three :: station where
  "raymer_wind_three =
     [(''display_name'', PStr ''Raymer Wind''), (''maxgust'', PInt 40), (''newsnow'', PInt 3)]"

text \<open>A record without any key, and one whose values are all null.\<close>

definition null_station :: station where
  "null_station = [(''display_name'', PNone), (''maxtemp'', PNone), (''newsnow'', PNone)]"

definition payload :: "station list \<Rightarrow> (string \<times> pyval) list" where
  "payload stations = [(''data'', PList (map PDict stations))]"

section \<open>Calendar arithmetic\<close>

lemma month_cases:
  "1 \<le> (m::int) \<Longrightarrow> m \<le> 12 \<Longrightarrow>
   m = 1 \<or> m = 2 \<or> m = 3 \<or> m = 4 \<or> m = 5 \<or> m = 6 \<or> m = 7 \<or> m = 8 \<or> m = 9 \<or> m = 10 \<or> m = 11 \<or> m = 12"
  by arith

lemma div_pred:
  assumes "0 < (k::int)"
  shows "y div k = (y - 1) div k + (if y mod k = 0 then 1 else 0)"
proof (cases "y mod k = 0")
  case True
  have "y - 1 = k * (y div k - 1) + (k - 1)"
    using True by (simp add: algebra_simps) (metis True add.right_neutral mult_div_mod_eq)
  then have "(y - 1) div k = y div k - 1"
    using assms by (intro int_div_pos_eq [where r = "k - 1"]) simp_all
  with True show ?thesis by simp
next
  case False
  have "0 \<le> y mod k" "y mod k < k" using assms by simp_all
  with False have r: "0 \<le> y mod k - 1" "y mod k - 1 < k" by simp_all
  have "y - 1 = k * (y div k) + (y mod k - 1)"
    by (simp add: algebra_simps)
  then have "(y - 1) div k = y div k"
    using r by (intro int_div_pos_eq [where r = "y mod k - 1"]) simp_all
  with False show ?thesis by simp
qed

text \<open>A year has 365 days, and one more when it is a leap year.\<close>

lemma days_before_year_step:
  "days_before_year (y + 1) = days_before_year y + 365 + (if is_leap y then 1 else 0)"
proof -
  define p4 p100 p400 where "p4 \<longleftrightarrow> y mod 4 = 0" and "p100 \<longleftrightarrow> y mod 100 = 0"
    and "p400 \<longleftrightarrow> y mod 400 = 0"
  define a4 a100 a400 where "a4 = (y - 1) div 4" and "a100 = (y - 1) div 100"
    and "a400 = (y - 1) div 400"
  have a: "y div 4 = a4 + (if p4 then 1 else 0)"
    unfolding a4_def p4_def by (rule div_pred) simp
  have b: "y div 100 = a100 + (if p100 then 1 else 0)"
    unfolding a100_def p100_def by (rule div_pred) simp
  have c: "y div 400 = a400 + (if p400 then 1 else 0)"
    unfolding a400_def p400_def by (rule div_pred) simp
  have d: "p100" if "p400"
    using mod_mod_cancel [of 100 400 y] that unfolding p100_def p400_def by simp
  have e: "p4" if "p100"
    using mod_mod_cancel [of 4 100 y] that unfolding p4_def p100_def by simp
  have l: "is_leap y \<longleftrightarrow> p4 \<and> (\<not> p100 \<or> p400)"
    by (simp add: is_leap_def p4_def p100_def p400_def)
  have "days_before_year (y + 1) = y * 365 + y div 4 - y div 100 + y div 400"
    by (simp add: days_before_year_def)
  also have "\<dots> = y * 365 + (a4 + (if p4 then 1 else 0)) - (a100 + (if p100 then 1 else 0))
      + (a400 + (if p400 then 1 else 0))"
    by (simp only: a b c)
  also have "\<dots> = ((y - 1) * 365 + a4 - a100 + a400) + 365 + (if is_leap y then 1 else 0)"
    unfolding l using d e by (cases p4; cases p100; cases p400; simp add: algebra_simps)
  also have "(y - 1) * 365 + a4 - a100 + a400 = days_before_year y"
    by (simp only: days_before_year_def a4_def a100_def a400_def)
  finally show ?thesis .
qed

lemma days_before_year_pred:
  "days_before_year y = days_before_year (y - 1) + 365 + (if is_leap (y - 1) then 1 else 0)"
  using days_before_year_step [of "y - 1"] by simp

lemma day_number_late:
  assumes "5 \<le> m" "m \<le> 12" "1 \<le> d" "d \<le> days_in_month y m"
  shows "1 \<le> days_before_month y m + d - days_before_month y 5"
    and "days_before_month y m + d - days_before_month y 5 \<le> 245"
  using month_cases [of m] assms
  by (auto simp: days_before_month_def days_in_month_def split: if_splits)

lemma day_number_early:
  assumes "1 \<le> m" "m < 5" "1 \<le> d" "d \<le> days_in_month y m"
  shows "1 \<le> days_before_month y m + d"
    and "days_before_month y m + d \<le> 120 + (if is_leap y then 1 else 0)"
  using month_cases [of m] assms
  by (auto simp: days_before_month_def days_in_month_def split: if_splits)

text \<open>The day number of a date lies between 1 and 366.\<close>

lemma day_number_bounds:
  assumes "valid_datetime d"
  shows "1 \<le> day_number d" and "day_number d \<le> 366"
proof -
  let ?y = "year d" and ?m = "month d" and ?d = "day d"
  from assms have v: "1 \<le> ?m" "?m \<le> 12" "1 \<le> ?d" "?d \<le> days_in_month ?y ?m"
    by (simp_all add: valid_datetime_def)
  have five: "\<And>y. days_before_month y 5 = 120 + (if is_leap y then 1 else 0)"
    by (simp add: days_before_month_def)
  show "1 \<le> day_number d"
  proof (cases "5 \<le> ?m")
    case True
    with day_number_late(1) [OF True v(2-4)] show ?thesis
      by (simp add: day_number_def fiscal_year_def ymd2ord_def)
  next
    case False
    then have lt: "?m < 5" by simp
    from day_number_early(1) [OF v(1) lt v(3,4)] False show ?thesis
      by (simp add: day_number_def fiscal_year_def ymd2ord_def five
            days_before_year_pred [of ?y])
  qed
  show "day_number d \<le> 366"
  proof (cases "5 \<le> ?m")
    case True
    with day_number_late(2) [OF True v(2-4)] show ?thesis
      by (simp add: day_number_def fiscal_year_def ymd2ord_def)
  next
    case False
    then have lt: "?m < 5" by simp
    from day_number_early(2) [OF v(1) lt v(3,4)] False show ?thesis
      by (simp add: day_number_def fiscal_year_def ymd2ord_def five
            days_before_year_pred [of ?y] split: if_splits)
  qed
qed

lemma days_before_month_step:
  assumes "1 \<le> m" "m < 12"
  shows "days_before_month y (m + 1) = days_before_month y m + days_in_month y m"
  using month_cases [of m] assms
  by (auto simp: days_before_month_def days_in_month_def)

lemma days_before_month_12: "days_before_month y 12 = 334 + (if is_leap y then 1 else 0)"
  by (simp add: days_before_month_def)

lemma days_before_month_1: "days_before_month y 1 = 0"
  by (simp add: days_before_month_def)

lemma days_in_month_12: "days_in_month y 12 = 31"
  by (simp add: days_in_month_def)

lemma days_in_month_pos: "28 \<le> days_in_month y m"
  by (simp add: days_in_month_def)

lemma next_day_calendar: "calendar_date a \<Longrightarrow> calendar_date (next_day a)"
  using days_in_month_pos
  by (cases a) (auto simp: calendar_date_def next_day_def intro: order_trans [of 1 28])

lemma next_day_ordinal:
  assumes "calendar_date a"
  shows "ordinal (next_day a) = ordinal a + 1"
proof -
  obtain y m d where a: "a = (y, m, d)" by (cases a)
  with assms have v: "1 \<le> m" "m \<le> 12" "1 \<le> d" "d \<le> days_in_month y m"
    by (simp_all add: calendar_date_def)
  show ?thesis
  proof (cases "d < days_in_month y m")
    case True
    with a show ?thesis by (simp add: next_day_def ordinal_def ymd2ord_def)
  next
    case False
    with v have d: "d = days_in_month y m" by simp
    show ?thesis
    proof (cases "m < 12")
      case True
      with a d days_before_month_step [OF v(1) True, of y] show ?thesis
        by (simp add: next_day_def ordinal_def ymd2ord_def)
    next
      case False
      with v have m: "m = 12" by simp
      with a d show ?thesis
        by (simp add: next_day_def ordinal_def ymd2ord_def days_before_year_step
              days_before_month_12 days_before_month_1 days_in_month_12)
    qed
  qed
qed

lemma funpow_next_day:
  assumes "calendar_date a"
  shows "calendar_date ((next_day ^^ n) a) \<and> ordinal ((next_day ^^ n) a) = ordinal a + int n"
  by (induction n) (simp_all add: assms next_day_calendar next_day_ordinal)


lemma in_year_bounds:
  assumes "1 \<le> m" "m \<le> 12" "1 \<le> d" "d \<le> days_in_month y m"
  shows "1 \<le> days_before_month y m + d"
    and "days_before_month y m + d \<le> 365 + (if is_leap y then 1 else 0)"
  using month_cases [of m] assms
  by (auto simp: days_before_month_def days_in_month_def split: if_splits)

lemma days_before_year_mono: "y \<le> y' \<Longrightarrow> days_before_year y \<le> days_before_year y'"
proof (induction y' rule: int_ge_induct)
  case base
  show ?case by simp
next
  case (step i)
  then show ?case by (simp add: days_before_year_step)
qed

lemma ordinal_less_year:
  assumes "calendar_date (y1, m1, d1)" "calendar_date (y2, m2, d2)" "y1 < y2"
  shows "ordinal (y1, m1, d1) < ordinal (y2, m2, d2)"
proof -
  from assms(1) have "days_before_month y1 m1 + d1 \<le> 365 + (if is_leap y1 then 1 else 0)"
    by (intro in_year_bounds) (simp_all add: calendar_date_def)
  then have "ordinal (y1, m1, d1) \<le> days_before_year (y1 + 1)"
    by (simp add: ordinal_def ymd2ord_def days_before_year_step)
  also from assms(3) have "\<dots> \<le> days_before_year y2"
    by (intro days_before_year_mono) simp
  also from assms(2) have "1 \<le> days_before_month y2 m2 + d2"
    by (intro in_year_bounds) (simp_all add: calendar_date_def)
  then have "days_before_year y2 < ordinal (y2, m2, d2)"
    by (simp add: ordinal_def ymd2ord_def)
  finally show ?thesis .
qed

lemma days_before_month_mono:
  assumes "1 \<le> m" "m \<le> m'"
  shows "m' \<le> 12 \<longrightarrow> days_before_month y m \<le> days_before_month y m'"
  using assms(2)
proof (induction m' rule: int_ge_induct)
  case base
  show ?case by simp
next
  case (step i)
  show ?case
  proof
    assume "i + 1 \<le> 12"
    then have i: "i < 12" "i \<le> 12" by simp_all
    from step.hyps assms(1) have "1 \<le> i" by simp
    from days_before_month_step [OF this i(1), of y] days_in_month_pos [of y i] step.IH i(2)
    show "days_before_month y m \<le> days_before_month y (i + 1)" by simp
  qed
qed

lemma month_end_before:
  assumes "1 \<le> m1" "m1 < m2" "m2 \<le> 12"
  shows "days_before_month y m1 + days_in_month y m1 \<le> days_before_month y m2"
proof -
  from assms have "m1 < 12" "1 \<le> m1 + 1" "m1 + 1 \<le> m2" by simp_all
  from days_before_month_step [OF assms(1) this(1), of y]
    days_before_month_mono [OF this(2,3), of y] assms(3)
  show ?thesis by simp
qed

lemma ordinal_less_month:
  assumes "calendar_date (y, m1, d1)" "calendar_date (y, m2, d2)" "m1 < m2"
  shows "ordinal (y, m1, d1) < ordinal (y, m2, d2)"
proof -
  from assms have "days_before_month y m1 + days_in_month y m1 \<le> days_before_month y m2"
    by (intro month_end_before) (simp_all add: calendar_date_def)
  with assms(1,2) show ?thesis
    by (simp add: ordinal_def ymd2ord_def calendar_date_def)
qed

lemma ordinal_inj:
  assumes "calendar_date a" "calendar_date b" "ordinal a = ordinal b"
  shows "a = b"
proof -
  obtain y1 m1 d1 where a: "a = (y1, m1, d1)" by (cases a)
  obtain y2 m2 d2 where b: "b = (y2, m2, d2)" by (cases b)
  have y: "y1 = y2"
    using ordinal_less_year [of y1 m1 d1 y2 m2 d2] ordinal_less_year [of y2 m2 d2 y1 m1 d1]
      assms a b by (cases y1 y2 rule: linorder_cases) simp_all
  have m: "m1 = m2"
    using ordinal_less_month [of y1 m1 d1 m2 d2] ordinal_less_month [of y1 m2 d2 m1 d1]
      assms a b y by (cases m1 m2 rule: linorder_cases) simp_all
  from assms(3) a b y m show ?thesis by (simp add: ordinal_def ymd2ord_def)
qed

lemma next_day_reaches:
  assumes "calendar_date a" "calendar_date b" "ordinal a \<le> ordinal b"
  shows "(next_day ^^ nat (ordinal b - ordinal a)) a = b"
proof -
  let ?c = "(next_day ^^ nat (ordinal b - ordinal a)) a"
  from funpow_next_day [OF assms(1), of "nat (ordinal b - ordinal a)"] assms(3)
  have "calendar_date ?c" "ordinal ?c = ordinal b" by simp_all
  with assms(2) show ?thesis by (intro ordinal_inj)
qed

lemma day_number_counts_days:
  assumes "valid_datetime d"
  shows "(next_day ^^ nat (day_number d - 1)) (fiscal_year d, 5, 1) = (year d, month d, day d)"
proof -
  from assms have b: "calendar_date (year d, month d, day d)"
    by (simp add: valid_datetime_def calendar_date_def)
  have a: "calendar_date (fiscal_year d, 5, 1)"
    by (simp add: calendar_date_def days_in_month_def)
  have n: "ordinal (year d, month d, day d) - ordinal (fiscal_year d, 5, 1) = day_number d - 1"
    by (simp add: ordinal_def day_number_def)
  from day_number_bounds(1) [OF assms] n
  have "ordinal (fiscal_year d, 5, 1) \<le> ordinal (year d, month d, day d)" by simp
  from next_day_reaches [OF a b this] n show ?thesis by simp
qed

lemma length_nat_digits:
  "n < 1000 \<Longrightarrow> length (nat_digits n) \<le> 3"
  by (simp add: nat_digits.simps [of n] nat_digits.simps [of "n div 10"]
        nat_digits.simps [of "n div 10 div 10"])

lemma length_zfill: "length s \<le> w \<Longrightarrow> length (zfill w s) = w"
  by (simp add: zfill_def)

text \<open>Subtracting a midnight: the time of day of the left operand does not reach a full day.\<close>

lemma sub_days_midnight:
  assumes "valid_datetime a" "hour b = 0" "minute b = 0" "second b = 0" "microsecond b = 0"
  shows "sub_days a b = toordinal a - toordinal b"
proof -
  let ?t = "(second a + minute a * 60 + hour a * 3600) * 1000000 + microsecond a"
  from assms(1) have "0 \<le> ?t" "?t < 86400 * 1000000"
    by (simp_all add: valid_datetime_def)
  then have "?t div (86400 * 1000000) = 0" by simp
  then show ?thesis using assms(2-) by (simp add: sub_days_def Let_def)
qed

lemma get_prophix_date_eq:
  assumes "valid_datetime d" and "2 \<le> year d \<or> 5 \<le> month d"
  shows "get_prophix_date d =
           Inr (str_int (fiscal_year d) @ ''D'' @ zfill 3 (nat_digits (nat (day_number d))))"
proof -
  from assms have fy: "1 \<le> fiscal_year d" "fiscal_year d \<le> 9999"
    by (auto simp: fiscal_year_def valid_datetime_def)
  then obtain fs where fs: "datetime_ymd (fiscal_year d) 5 1 = Inr fs"
    and mid: "hour fs = 0" "minute fs = 0" "second fs = 0" "microsecond fs = 0"
    and ord: "toordinal fs = ymd2ord (fiscal_year d) 5 1"
    by (simp add: datetime_ymd_def days_in_month_def toordinal_def)
  have dn: "sub_days d fs + 1 = day_number d"
    using sub_days_midnight [OF assms(1) mid] ord
    by (simp add: day_number_def toordinal_def)
  note b = day_number_bounds [OF assms(1)]
  have "get_prophix_date d =
          Inr (str_int (fiscal_year d) @ ''D'' @ format_03d (day_number d))"
    using fs dn by (simp add: get_prophix_date_def fiscal_year_def Let_def)
  moreover have "format_03d (day_number d) = zfill 3 (nat_digits (nat (day_number d)))"
    using b by (simp add: format_03d_def)
  ultimately show ?thesis by simp
qed

section \<open>The fiscal date code: results\<close>

text \<open>
  C1, as the code has it. For every datetime \<open>d\<close> from the first of May of year 1 on,
  \<open>get_prophix_date d\<close> returns the fiscal year, the letter D and the day number in exactly
  three digits, padded with zeros. The fiscal year is the year of \<open>d\<close> from May on and the
  year before otherwise; the day number is the count of calendar days from the first of
  May of the fiscal year to \<open>d\<close>, plus one: the difference of the two ordinals, and the
  number of steps of \<open>next_day\<close> that lead from that first of May to the day of \<open>d\<close>. It
  lies between 1 and 366.
\<close>

theorem get_prophix_date_code:
  assumes "valid_datetime d" and "2 \<le> year d \<or> 5 \<le> month d"
  shows "get_prophix_date d =
           Inr (str_int (fiscal_year d) @ ''D'' @ zfill 3 (nat_digits (nat (day_number d))))
         \<and> fiscal_year d = (if 5 \<le> month d then year d else year d - 1)
         \<and> day_number d = toordinal d - ymd2ord (fiscal_year d) 5 1 + 1
         \<and> (next_day ^^ nat (day_number d - 1)) (fiscal_year d, 5, 1) = (year d, month d, day d)
         \<and> 1 \<le> day_number d \<and> day_number d \<le> 366
         \<and> length (zfill 3 (nat_digits (nat (day_number d)))) = 3"
proof -
  note b = day_number_bounds [OF assms(1)]
  have "length (zfill 3 (nat_digits (nat (day_number d)))) = 3"
    using b by (intro length_zfill length_nat_digits) simp
  moreover have "fiscal_year d = (if 5 \<le> month d then year d else year d - 1)"
    by (simp add: fiscal_year_def)
  moreover have "day_number d = toordinal d - ymd2ord (fiscal_year d) 5 1 + 1"
    by (simp add: day_number_def toordinal_def)
  ultimately show ?thesis
    using get_prophix_date_eq [OF assms] b day_number_counts_days [OF assms(1)]
    by (intro conjI)
qed

text \<open>The two dates of the specification: 2026-05-01 and 2026-04-30.\<close>

theorem get_prophix_date_code_witness:
  "get_prophix_date (dt 2026 5 1) = Inr ''2026D001''
   \<and> get_prophix_date (dt 2026 4 30) = Inr ''2025D365''"
proof -
  have v1: "valid_datetime (dt 2026 5 1)" and f1: "2 \<le> year (dt 2026 5 1) \<or> 5 \<le> month (dt 2026 5 1)"
    by code_simp+
  have v2: "valid_datetime (dt 2026 4 30)" and f2: "2 \<le> year (dt 2026 4 30) \<or> 5 \<le> month (dt 2026 4 30)"
    by code_simp+
  have e1: "str_int (fiscal_year (dt 2026 5 1)) @ ''D''
              @ zfill 3 (nat_digits (nat (day_number (dt 2026 5 1)))) = ''2026D001''"
    by code_simp
  have e2: "str_int (fiscal_year (dt 2026 4 30)) @ ''D''
              @ zfill 3 (nat_digits (nat (day_number (dt 2026 4 30)))) = ''2025D365''"
    by code_simp
  show ?thesis
    using get_prophix_date_code [OF v1 f1] get_prophix_date_code [OF v2 f2] e1 e2
    by simp
qed

text \<open>
  C1 as stated, for every date, fails in the first four months of year 1: the fiscal year
  would be year 0, which \<^verbatim>\<open>datetime\<close> refuses.
\<close>

theorem get_prophix_date_year_one: "get_prophix_date (dt 1 4 30) = Inl ValueError"
  by code_simp

section \<open>The mapper on a list of records\<close>

lemma first_match_dicts:
  "first_match keywords (map PDict stations) = Inr (first_station keywords stations)"
  by (induction stations) (simp_all add: first_station_def)

lemma d_name_empty: "d_name [] = []"
  by (simp add: d_name_def dict_get_default_def py_str_def py_lower_def)

lemma any_keyword_nonempty:
  assumes "any_keyword keywords (d_name row)" and "[] \<notin> set keywords"
  shows "row \<noteq> []"
proof
  assume "row = []"
  with assms(1) obtain k where "k \<in> set keywords" "sublist k []"
    by (auto simp: any_keyword_def list_ex_iff d_name_empty)
  with assms(2) show False by auto
qed

lemma first_station_Some:
  "first_station keywords stations = Some row \<Longrightarrow> any_keyword keywords (d_name row) \<and> row \<in> set stations"
  unfolding first_station_def by (auto simp: find_Some_iff)

lemma first_station_None:
  "first_station keywords stations = None \<longleftrightarrow>
     (\<forall>row \<in> set stations. \<not> any_keyword keywords (d_name row))"
  unfolding first_station_def by (auto simp: find_None_iff)

lemma first_station_index:
  assumes "i < length stations" "any_keyword keywords (d_name (stations ! i))"
    and "\<forall>j<i. \<not> any_keyword keywords (d_name (stations ! j))"
  shows "first_station keywords stations = Some (stations ! i)"
  unfolding first_station_def using assms by (auto simp: find_Some_iff)

lemma next_or_empty_dicts:
  "next_or_empty ''raymer 9,360'' (map PDict stations) = Inr (temp_source stations)"
  "next_or_empty ''raymer wind'' (map PDict stations) = Inr (wind_source stations)"
  by (simp_all add: next_or_empty_def first_match_dicts temp_source_def wind_source_def
        split: option.splits)

lemma raymer_merged_nonempty: "raymer_merged a b \<noteq> []"
  by (simp add: raymer_merged_def)

lemma find_station_dicts:
  assumes "[] \<notin> set (fst (snd t))"
  shows "find_station (raymer_merged (temp_source stations) (wind_source stations))
            (map PDict stations) t = Inr found \<Longrightarrow>
         (case found of Some st \<Rightarrow> if st \<noteq> [] then [new_row pd ds (fst t) st] else [] | None \<Rightarrow> [])
           = target_rows pd ds stations t"
  using assms
  by (cases t)
     (auto simp: find_station_def target_rows_def first_match_dicts raymer_merged_nonempty
        dest!: first_station_Some dest: any_keyword_nonempty split: option.splits if_splits)

lemma find_station_total:
  "\<exists>found. find_station m (map PDict stations) t = Inr found"
  by (cases t) (simp add: find_station_def first_match_dicts)

lemma scan_targets_dicts:
  assumes "\<forall>t \<in> set ts. [] \<notin> set (fst (snd t))"
  shows "scan_targets pd ds (raymer_merged (temp_source stations) (wind_source stations))
           (map PDict stations) ts acc
         = Inr (acc @ concat (map (target_rows pd ds stations) ts))"
  using assms
proof (induction ts arbitrary: acc)
  case Nil
  then show ?case by simp
next
  case (Cons t ts)
  obtain found where f: "find_station (raymer_merged (temp_source stations) (wind_source stations))
            (map PDict stations) t = Inr found"
    using find_station_total by blast
  from Cons.prems have k: "[] \<notin> set (fst (snd t))" by simp
  note r = find_station_dicts [OF k f, of pd ds]
  from Cons.prems have "\<forall>t \<in> set ts. [] \<notin> set (fst (snd t))" by simp
  note ih = Cons.IH [OF this]
  show ?case
    using f r by (cases found) (simp_all add: ih split: if_splits)
qed

lemma target_defs_keywords: "\<forall>t \<in> set target_defs. [] \<notin> set (fst (snd t))"
  by (simp add: target_defs_def)

lemma process_data_dicts:
  assumes "payload_of kvs stations" and "get_prophix_date d = Inr code"
  shows "process_data (PDict kvs) d
         = Inr (concat (map (target_rows code (strftime_ymd d) stations) target_defs))"
proof -
  from assms(1) have m: "map_of kvs ''data'' = Some (PList (map PDict stations))"
    by (simp add: payload_of_def)
  then have ne: "kvs \<noteq> []" by auto
  show ?thesis
    using m ne assms(2)
    by (simp add: process_data_def next_or_empty_dicts
          scan_targets_dicts [OF target_defs_keywords])
qed

lemma payload_of_payload: "payload_of (payload stations) stations"
  by (simp add: payload_of_def payload_def)

lemma fiscal_code_exists:
  assumes "valid_datetime d" and "2 \<le> year d \<or> 5 \<le> month d"
  shows "\<exists>code. get_prophix_date d = Inr code"
  using get_prophix_date_eq [OF assms] by blast

lemma target_rows_Location:
  "r \<in> set (target_rows pd ds stations t) \<Longrightarrow> Location r = fst t"
  by (auto simp: target_rows_def new_row_def split: if_splits option.splits)

lemma filter_concat_key:
  assumes "distinct (map fst ts)" and "t \<in> set ts"
    and "\<And>t' r. r \<in> set (f t') \<Longrightarrow> Location r = fst t'"
  shows "filter (\<lambda>r. Location r = fst t) (concat (map f ts)) = f t"
  using assms(1,2)
proof (induction ts)
  case Nil
  then show ?case by simp
next
  case (Cons a ts)
  have same: "filter (\<lambda>r. Location r = fst u) (f u) = f u" for u
    using assms(3) by (simp add: filter_id_conv)
  have other: "filter (\<lambda>r. Location r = fst u) (f v) = []" if "fst v \<noteq> fst u" for u v
    using assms(3) that by (auto simp: filter_empty_conv)
  from Cons.prems(1) have "fst a \<notin> fst ` set ts" by simp
  then have na: "\<forall>v \<in> set ts. fst v \<noteq> fst a" by (metis imageI)
  show ?case
  proof (cases "t = a")
    case True
    from na have "filter (\<lambda>r. Location r = fst a) (concat (map f ts)) = []"
      using assms(3) by (auto simp: filter_empty_conv)
    with True same show ?thesis by simp
  next
    case False
    with Cons.prems(2) have t: "t \<in> set ts" by simp
    with na have ne: "fst a \<noteq> fst t" by metis
    from Cons.IH [OF _ t] Cons.prems(1) other [OF ne] show ?thesis by simp
  qed
qed

lemma distinct_target_names: "distinct (map fst target_defs)"
  by (simp add: target_defs_def)

lemma rows_of_target:
  assumes "payload_of kvs stations" and "get_prophix_date d = Inr code" and "t \<in> set target_defs"
  shows "\<exists>rows. process_data (PDict kvs) d = Inr rows
           \<and> filter (\<lambda>r. Location r = fst t) rows = target_rows code (strftime_ymd d) stations t"
  using process_data_dicts [OF assms(1,2)]
    filter_concat_key [OF distinct_target_names assms(3), of "target_rows code (strftime_ymd d) stations"]
    target_rows_Location
  by simp

text \<open>
  C4. For every target other than Raymer and every payload whose \<^verbatim>\<open>data\<close> is a list of
  records, the row of that target is built from the first record, in payload order, whose
  lower-cased display name contains one of the target's keywords as a substring: when
  record \<open>i\<close> matches and no earlier record does, the only row with that location is the one
  made from record \<open>i\<close>. The date is any datetime that has a fiscal code.
\<close>

theorem first_matching_station_selected:
  assumes "payload_of kvs stations" and "valid_datetime d" and "2 \<le> year d \<or> 5 \<le> month d"
    and "(name, keywords, False) \<in> set target_defs"
    and "i < length stations"
    and "any_keyword keywords (d_name (stations ! i))"
    and "\<forall>j<i. \<not> any_keyword keywords (d_name (stations ! j))"
  shows "\<exists>code rows. get_prophix_date d = Inr code \<and> process_data (PDict kvs) d = Inr rows
           \<and> filter (\<lambda>r. Location r = name) rows
               = [new_row code (strftime_ymd d) name (stations ! i)]"
proof -
  from fiscal_code_exists [OF assms(2,3)] obtain code where c: "get_prophix_date d = Inr code" ..
  from rows_of_target [OF assms(1) c assms(4)] obtain rows where
    r: "process_data (PDict kvs) d = Inr rows"
    and f: "filter (\<lambda>r. Location r = name) rows
              = target_rows code (strftime_ymd d) stations (name, keywords, False)"
    by auto
  have "first_station keywords stations = Some (stations ! i)"
    using assms(5-7) by (rule first_station_index)
  then have "target_rows code (strftime_ymd d) stations (name, keywords, False)
               = [new_row code (strftime_ymd d) name (stations ! i)]"
    by (simp add: target_rows_def)
  with c r f show ?thesis by simp
qed

text \<open>
  The station named RENDEZVOUS BOWL Upper is selected for \<^verbatim>\<open>RV_Bowl\<close> through the keyword
  \<^verbatim>\<open>rendezvous bowl\<close>, ahead of a later station that matches as well.
\<close>

theorem first_matching_station_selected_witness:
  "\<exists>code rows. get_prophix_date (dt 2026 11 2) = Inr code
     \<and> process_data (PDict (payload [summit_station, rv_upper_station, rv_lower_station]))
           (dt 2026 11 2) = Inr rows
     \<and> filter (\<lambda>r. Location r = ''RV_Bowl'') rows
          = [new_row code (strftime_ymd (dt 2026 11 2)) ''RV_Bowl'' rv_upper_station]"
proof -
  let ?st = "[summit_station, rv_upper_station, rv_lower_station]"
  have v: "valid_datetime (dt 2026 11 2)"
    and f: "2 \<le> year (dt 2026 11 2) \<or> 5 \<le> month (dt 2026 11 2)"
    by code_simp+
  have t: "(''RV_Bowl'', [''rbowl'', ''rendezvous bowl''], False) \<in> set target_defs"
    by (simp add: target_defs_def)
  have i: "1 < length ?st" by simp
  have m: "any_keyword [''rbowl'', ''rendezvous bowl''] (d_name (?st ! 1))"
    by code_simp
  have "\<not> any_keyword [''rbowl'', ''rendezvous bowl''] (d_name (?st ! 0))"
    by code_simp
  then have n: "\<forall>j<1. \<not> any_keyword [''rbowl'', ''rendezvous bowl''] (d_name (?st ! j))"
    by simp
  show ?thesis
    using first_matching_station_selected [OF payload_of_payload v f t i m n]
    by simp
qed

lemma concat_map_filter_empty:
  assumes "\<forall>t \<in> set ts. \<not> P t \<longrightarrow> f t = []"
  shows "concat (map f ts) = concat (map f (filter P ts))"
  using assms by (induction ts) auto

lemma target_rows_found:
  assumes "snd (snd t) \<longrightarrow> fst t = ''Raymer''"
  shows "map Location (target_rows pd ds stations t)
         = (if snd (snd t) \<or> (\<exists>row \<in> set stations. any_keyword (fst (snd t)) (d_name row))
            then [fst t] else [])"
proof (cases "snd (snd t)")
  case True
  with assms show ?thesis by (simp add: target_rows_def new_row_def)
next
  case False
  show ?thesis
  proof (cases "first_station (fst (snd t)) stations")
    case None
    with False show ?thesis
      using first_station_None [of "fst (snd t)" stations] by (simp add: target_rows_def)
  next
    case (Some row)
    with False show ?thesis
      using first_station_Some [OF Some] by (auto simp: target_rows_def new_row_def)
  qed
qed

lemma map_Location_concat:
  assumes "\<forall>t \<in> set ts. snd (snd t) \<longrightarrow> fst t = ''Raymer''"
  shows "map Location (concat (map (target_rows pd ds stations) ts))
         = map fst (filter (\<lambda>t. snd (snd t)
              \<or> (\<exists>row \<in> set stations. any_keyword (fst (snd t)) (d_name row))) ts)"
  using assms by (induction ts) (simp_all add: target_rows_found)

lemma target_defs_merged: "\<forall>t \<in> set target_defs. snd (snd t) \<longrightarrow> fst t = ''Raymer''"
  by (simp add: target_defs_def)

lemma target_defs_same_name:
  assumes "(name, keywords, False) \<in> set target_defs" "t \<in> set target_defs" "fst t = name"
  shows "t = (name, keywords, False)"
proof -
  obtain n v where t: "t = (n, v)" by (cases t)
  with assms have "(name, v) \<in> set target_defs" by simp
  from eq_key_imp_eq_value [OF distinct_target_names assms(1) this] t assms(3)
  show ?thesis by simp
qed

text \<open>
  C6. When no record of the payload matches the keywords of a target other than Raymer,
  no returned row carries that location, the returned rows are exactly the rows of the
  other targets, and the locations returned are the other targets that are found, in the
  fixed order.
\<close>

theorem missing_target_skipped:
  assumes "payload_of kvs stations" and "valid_datetime d" and "2 \<le> year d \<or> 5 \<le> month d"
    and "(name, keywords, False) \<in> set target_defs"
    and "\<forall>row \<in> set stations. \<not> any_keyword keywords (d_name row)"
  shows "\<exists>code rows. get_prophix_date d = Inr code \<and> process_data (PDict kvs) d = Inr rows
           \<and> (\<forall>r \<in> set rows. Location r \<noteq> name)
           \<and> rows = concat (map (target_rows code (strftime_ymd d) stations)
                              (filter (\<lambda>t. fst t \<noteq> name) target_defs))
           \<and> map Location rows
               = map fst (filter (\<lambda>t. fst t \<noteq> name \<and> (snd (snd t)
                    \<or> (\<exists>row \<in> set stations. any_keyword (fst (snd t)) (d_name row))))
                  target_defs)"
proof -
  from fiscal_code_exists [OF assms(2,3)] obtain code where c: "get_prophix_date d = Inr code" ..
  let ?f = "target_rows code (strftime_ymd d) stations"
  let ?others = "filter (\<lambda>t. fst t \<noteq> name) target_defs"
  have none: "first_station keywords stations = None"
    using assms(5) by (simp add: first_station_None)
  have "\<forall>t \<in> set target_defs. \<not> fst t \<noteq> name \<longrightarrow> ?f t = []"
  proof (intro ballI impI)
    fix t assume "t \<in> set target_defs" "\<not> fst t \<noteq> name"
    then have "t = (name, keywords, False)"
      using target_defs_same_name [OF assms(4)] by simp
    with none show "?f t = []" by (simp add: target_rows_def)
  qed
  then have eq: "concat (map ?f target_defs) = concat (map ?f ?others)"
    by (rule concat_map_filter_empty)
  have r: "process_data (PDict kvs) d = Inr (concat (map ?f ?others))"
    using process_data_dicts [OF assms(1) c] eq by simp
  have loc: "\<forall>r \<in> set (concat (map ?f ?others)). Location r \<noteq> name"
    by (auto dest: target_rows_Location)
  have "\<forall>t \<in> set ?others. snd (snd t) \<longrightarrow> fst t = ''Raymer''"
    using target_defs_merged by simp
  from map_Location_concat [OF this, of code "strftime_ymd d" stations]
  have "map Location (concat (map ?f ?others))
        = map fst (filter (\<lambda>t. fst t \<noteq> name \<and> (snd (snd t)
                    \<or> (\<exists>row \<in> set stations. any_keyword (fst (snd t)) (d_name row))))
                  target_defs)"
    by (simp add: conj_commute)
  with c r loc show ?thesis by simp
qed

text \<open>
  With a station for every target but \<^verbatim>\<open>Buff\<close>, the mapper returns five rows, not six.
\<close>

theorem missing_target_skipped_witness:
  "\<exists>code rows. get_prophix_date (dt 2026 11 2) = Inr code
     \<and> process_data (PDict (payload [base_station, midmtn_station, rv_upper_station, summit_station]))
          (dt 2026 11 2) = Inr rows
     \<and> (\<forall>r \<in> set rows. Location r \<noteq> ''Buff'')
     \<and> map Location rows = [''Summit'', ''RV_Bowl'', ''Raymer'', ''MidMtn'', ''Base'']
     \<and> length rows = 5"
proof -
  let ?st = "[base_station, midmtn_station, rv_upper_station, summit_station]"
  have v: "valid_datetime (dt 2026 11 2)"
    and f: "2 \<le> year (dt 2026 11 2) \<or> 5 \<le> month (dt 2026 11 2)"
    by code_simp+
  have t: "(''Buff'', [''buff''], False) \<in> set target_defs"
    by (simp add: target_defs_def)
  have n: "\<forall>row \<in> set ?st. \<not> any_keyword [''buff''] (d_name row)"
    by code_simp
  have e: "map fst (filter (\<lambda>t. fst t \<noteq> ''Buff'' \<and> (snd (snd t)
                    \<or> (\<exists>row \<in> set ?st. any_keyword (fst (snd t)) (d_name row))))
                  target_defs) = [''Summit'', ''RV_Bowl'', ''Raymer'', ''MidMtn'', ''Base'']"
    by code_simp
  from missing_target_skipped [OF payload_of_payload v f t n, unfolded e]
  obtain code where "\<exists>rows. get_prophix_date (dt 2026 11 2) = Inr code
     \<and> process_data (PDict (payload ?st)) (dt 2026 11 2) = Inr rows
     \<and> (\<forall>r \<in> set rows. Location r \<noteq> ''Buff'')
     \<and> rows = concat (map (target_rows code (strftime_ymd (dt 2026 11 2)) ?st)
                       (filter (\<lambda>t. fst t \<noteq> ''Buff'') target_defs))
     \<and> map Location rows = [''Summit'', ''RV_Bowl'', ''Raymer'', ''MidMtn'', ''Base'']" ..
  then obtain rows where cr: "get_prophix_date (dt 2026 11 2) = Inr code
     \<and> process_data (PDict (payload ?st)) (dt 2026 11 2) = Inr rows
     \<and> (\<forall>r \<in> set rows. Location r \<noteq> ''Buff'')
     \<and> rows = concat (map (target_rows code (strftime_ymd (dt 2026 11 2)) ?st)
                       (filter (\<lambda>t. fst t \<noteq> ''Buff'') target_defs))
     \<and> map Location rows = [''Summit'', ''RV_Bowl'', ''Raymer'', ''MidMtn'', ''Base'']" ..
  from cr have c1: "get_prophix_date (dt 2026 11 2) = Inr code"
    by (elim conjE)
  from cr have c2: "process_data (PDict (payload ?st)) (dt 2026 11 2) = Inr rows"
    by (elim conjE)
  from cr have c3: "\<forall>r \<in> set rows. Location r \<noteq> ''Buff''"
    by (elim conjE)
  from cr have loc: "map Location rows = [''Summit'', ''RV_Bowl'', ''Raymer'', ''MidMtn'', ''Base'']"
    by (elim conjE)
  have c5: "length rows = 5"
    using arg_cong [OF loc, of length] by simp
  show ?thesis
    by (intro exI [of _ code] exI [of _ rows] conjI c1 c2 c3 loc c5)
qed

text \<open>
  C7. For every payload whose \<^verbatim>\<open>data\<close> is a list of records, exactly one returned row has
  the location \<^verbatim>\<open>Raymer\<close>, and it is built from the merged record, whatever the stations
  are: nothing is assumed about a station matching \<^verbatim>\<open>raymer 9,360\<close> or \<^verbatim>\<open>raymer wind\<close>.
\<close>

theorem raymer_row_always:
  assumes "payload_of kvs stations" and "valid_datetime d" and "2 \<le> year d \<or> 5 \<le> month d"
  shows "\<exists>code rows. get_prophix_date d = Inr code \<and> process_data (PDict kvs) d = Inr rows
           \<and> filter (\<lambda>r. Location r = ''Raymer'') rows
               = [new_row code (strftime_ymd d) ''Raymer''
                    (raymer_merged (temp_source stations) (wind_source stations))]"
proof -
  from fiscal_code_exists [OF assms(2,3)] obtain code where c: "get_prophix_date d = Inr code" ..
  have t: "(''Raymer'', [], True) \<in> set target_defs"
    by (simp add: target_defs_def)
  from rows_of_target [OF assms(1) c t] c show ?thesis
    by (auto simp: target_rows_def)
qed

theorem raymer_row_always_witness:
  "\<exists>code rows. get_prophix_date (dt 2026 11 2) = Inr code
     \<and> process_data (PDict (payload [summit_station])) (dt 2026 11 2) = Inr rows
     \<and> filter (\<lambda>r. Location r = ''Raymer'') rows
         = [new_row code (strftime_ymd (dt 2026 11 2)) ''Raymer'' (raymer_merged [] [])]"
proof -
  have v: "valid_datetime (dt 2026 11 2)"
    and f: "2 \<le> year (dt 2026 11 2) \<or> 5 \<le> month (dt 2026 11 2)"
    by code_simp+
  have s: "temp_source [summit_station] = []" "wind_source [summit_station] = []"
    by code_simp+
  show ?thesis
    using raymer_row_always [OF payload_of_payload v f, of "[summit_station]"]
    by (simp add: s)
qed

text \<open>
  C10. For every payload whose \<^verbatim>\<open>data\<close> is a list of string-keyed records,
  \<open>process_data\<close> returns rows and raises nothing: nothing is assumed about the keys the
  records have or about their values, which may be null. The date is any datetime that has
  a fiscal code.
\<close>

theorem process_data_total_on_records:
  assumes "payload_of kvs stations" and "valid_datetime d" and "2 \<le> year d \<or> 5 \<le> month d"
  shows "\<exists>rows. process_data (PDict kvs) d = Inr rows"
proof -
  from fiscal_code_exists [OF assms(2,3)] obtain code where c: "get_prophix_date d = Inr code" ..
  from process_data_dicts [OF assms(1) c] show ?thesis by blast
qed

theorem process_data_total_on_records_witness:
  "\<exists>rows. process_data (PDict (payload [[], null_station, summit_station])) (dt 2026 11 2) = Inr rows"
proof -
  have v: "valid_datetime (dt 2026 11 2)"
    and f: "2 \<le> year (dt 2026 11 2) \<or> 5 \<le> month (dt 2026 11 2)"
    by code_simp+
  show ?thesis
    using process_data_total_on_records [OF payload_of_payload v f] .
qed

section \<open>The Raymer merge: results\<close>

lemma dict_get_raymer_merged:
  "dict_get (raymer_merged a b) ''maxtemp'' = dict_get a ''maxtemp''"
  "dict_get (raymer_merged a b) ''mintemp'' = dict_get a ''mintemp''"
  "dict_get (raymer_merged a b) ''avewindspd'' = dict_get b ''avewindspd''"
  "dict_get (raymer_merged a b) ''maxgust'' = dict_get b ''maxgust''"
  "dict_get (raymer_merged a b) ''ttlwindmiles'' = dict_get b ''ttlwindmiles''"
  "dict_get (raymer_merged a b) ''newsnow'' = py_or (dict_get a ''newsnow'') (dict_get b ''newsnow'')"
  "dict_get (raymer_merged a b) ''depth'' = py_or (dict_get a ''depth'') (dict_get b ''depth'')"
  "dict_get (raymer_merged a b) ''ttlsnowfall''
     = py_or (dict_get a ''ttlsnowfall'') (dict_get b ''ttlsnowfall'')"
  by (simp_all add: raymer_merged_def dict_get_def)

lemma temp_source_index:
  assumes "i < length stations" "any_keyword [''raymer 9,360''] (d_name (stations ! i))"
    and "\<forall>j<i. \<not> any_keyword [''raymer 9,360''] (d_name (stations ! j))"
  shows "temp_source stations = stations ! i"
  using first_station_index [OF assms] by (simp add: temp_source_def)

lemma wind_source_index:
  assumes "i < length stations" "any_keyword [''raymer wind''] (d_name (stations ! i))"
    and "\<forall>j<i. \<not> any_keyword [''raymer wind''] (d_name (stations ! j))"
  shows "wind_source stations = stations ! i"
  using first_station_index [OF assms] by (simp add: wind_source_def)

lemma source_missing:
  "\<forall>row \<in> set stations. \<not> any_keyword [''raymer 9,360''] (d_name row) \<Longrightarrow> temp_source stations = []"
  "\<forall>row \<in> set stations. \<not> any_keyword [''raymer wind''] (d_name row) \<Longrightarrow> wind_source stations = []"
  by (simp_all add: temp_source_def wind_source_def first_station_None [THEN iffD2])

text \<open>
  C2, as the code has it. The two scans return the first station whose lower-cased display
  name contains \<^verbatim>\<open>raymer 9,360\<close>, respectively \<^verbatim>\<open>raymer wind\<close>, and the empty record when
  there is none. In the merged record \<^verbatim>\<open>maxtemp\<close> and \<^verbatim>\<open>mintemp\<close> are those of the first,
  \<^verbatim>\<open>avewindspd\<close>, \<^verbatim>\<open>maxgust\<close> and \<^verbatim>\<open>ttlwindmiles\<close> those of the second, a missing key
  reading as \<^verbatim>\<open>None\<close>. Each of \<^verbatim>\<open>newsnow\<close>, \<^verbatim>\<open>depth\<close> and \<^verbatim>\<open>ttlsnowfall\<close> is the value of
  the temperature source when that value is true in Python's sense, and the value of the
  wind source otherwise; when neither value is true, the merged one is not true either.
\<close>

theorem raymer_merge_sources:
  "next_or_empty ''raymer 9,360'' (map PDict stations) = Inr (temp_source stations)
   \<and> next_or_empty ''raymer wind'' (map PDict stations) = Inr (wind_source stations)
   \<and> (\<forall>i<length stations.
         any_keyword [''raymer 9,360''] (d_name (stations ! i))
         \<and> (\<forall>j<i. \<not> any_keyword [''raymer 9,360''] (d_name (stations ! j)))
         \<longrightarrow> temp_source stations = stations ! i)
   \<and> (\<forall>i<length stations.
         any_keyword [''raymer wind''] (d_name (stations ! i))
         \<and> (\<forall>j<i. \<not> any_keyword [''raymer wind''] (d_name (stations ! j)))
         \<longrightarrow> wind_source stations = stations ! i)
   \<and> ((\<forall>row \<in> set stations. \<not> any_keyword [''raymer 9,360''] (d_name row))
         \<longrightarrow> temp_source stations = [])
   \<and> ((\<forall>row \<in> set stations. \<not> any_keyword [''raymer wind''] (d_name row))
         \<longrightarrow> wind_source stations = [])
   \<and> (\<forall>m. m = raymer_merged (temp_source stations) (wind_source stations) \<longrightarrow>
        dict_get m ''maxtemp'' = dict_get (temp_source stations) ''maxtemp''
      \<and> dict_get m ''mintemp'' = dict_get (temp_source stations) ''mintemp''
      \<and> dict_get m ''avewindspd'' = dict_get (wind_source stations) ''avewindspd''
      \<and> dict_get m ''maxgust'' = dict_get (wind_source stations) ''maxgust''
      \<and> dict_get m ''ttlwindmiles'' = dict_get (wind_source stations) ''ttlwindmiles''
      \<and> (\<forall>k \<in> {''newsnow'', ''depth'', ''ttlsnowfall''}.
            dict_get m k
              = (if py_truthy (dict_get (temp_source stations) k)
                 then dict_get (temp_source stations) k
                 else dict_get (wind_source stations) k)
          \<and> (\<not> py_truthy (dict_get (temp_source stations) k)
               \<and> \<not> py_truthy (dict_get (wind_source stations) k)
               \<longrightarrow> \<not> py_truthy (dict_get m k))))"
proof -
  have "\<forall>k \<in> {''newsnow'', ''depth'', ''ttlsnowfall''}.
            dict_get (raymer_merged a b) k
              = (if py_truthy (dict_get a k) then dict_get a k else dict_get b k)
          \<and> (\<not> py_truthy (dict_get a k) \<and> \<not> py_truthy (dict_get b k)
               \<longrightarrow> \<not> py_truthy (dict_get (raymer_merged a b) k))" for a b
    by (simp add: dict_get_raymer_merged py_or_def)
  then show ?thesis
    using temp_source_index [of _ stations] wind_source_index [of _ stations]
      source_missing [of stations]
    by (simp add: next_or_empty_dicts dict_get_raymer_merged(1-5))
qed

theorem raymer_merge_sources_witness:
  "temp_source [summit_station, raymer_temp_station, raymer_wind_station] = raymer_temp_station
   \<and> wind_source [summit_station, raymer_temp_station, raymer_wind_station] = raymer_wind_station
   \<and> dict_get (raymer_merged raymer_temp_station raymer_wind_station) ''maxtemp'' = PInt 10
   \<and> dict_get (raymer_merged raymer_temp_station raymer_wind_station) ''maxgust'' = PInt 40
   \<and> dict_get (raymer_merged raymer_temp_station raymer_wind_station) ''newsnow'' = PNone"
proof -
  let ?st = "[summit_station, raymer_temp_station, raymer_wind_station]"
  note th = raymer_merge_sources [of ?st]
  have t1: "any_keyword [''raymer 9,360''] (d_name (?st ! 1))" by code_simp
  have "\<not> any_keyword [''raymer 9,360''] (d_name (?st ! 0))" by code_simp
  then have t0: "\<forall>j<1. \<not> any_keyword [''raymer 9,360''] (d_name (?st ! j))" by simp
  have w2: "any_keyword [''raymer wind''] (d_name (?st ! 2))" by code_simp
  have "\<not> any_keyword [''raymer wind''] (d_name (?st ! 0))"
    "\<not> any_keyword [''raymer wind''] (d_name (?st ! 1))" by code_simp+
  then have w0: "\<forall>j<2. \<not> any_keyword [''raymer wind''] (d_name (?st ! j))"
    by (simp add: less_Suc_eq numeral_2_eq_2)
  from th have T: "\<forall>i<length ?st.
         any_keyword [''raymer 9,360''] (d_name (?st ! i))
         \<and> (\<forall>j<i. \<not> any_keyword [''raymer 9,360''] (d_name (?st ! j)))
         \<longrightarrow> temp_source ?st = ?st ! i" by (elim conjE)
  have ts: "temp_source ?st = raymer_temp_station"
    using T [rule_format, of 1] t1 t0 by simp
  from th have W: "\<forall>i<length ?st.
         any_keyword [''raymer wind''] (d_name (?st ! i))
         \<and> (\<forall>j<i. \<not> any_keyword [''raymer wind''] (d_name (?st ! j)))
         \<longrightarrow> wind_source ?st = ?st ! i" by (elim conjE)
  have ws: "wind_source ?st = raymer_wind_station"
    using W [rule_format, of 2] w2 w0 by simp
  have e: "dict_get raymer_temp_station ''maxtemp'' = PInt 10"
    "dict_get raymer_wind_station ''maxgust'' = PInt 40"
    "dict_get raymer_temp_station ''newsnow'' = PNone"
    "dict_get raymer_wind_station ''newsnow'' = PNone"
    by code_simp+
  from th have M: "\<forall>m. m = raymer_merged (temp_source ?st) (wind_source ?st) \<longrightarrow>
        dict_get m ''maxtemp'' = dict_get (temp_source ?st) ''maxtemp''
      \<and> dict_get m ''mintemp'' = dict_get (temp_source ?st) ''mintemp''
      \<and> dict_get m ''avewindspd'' = dict_get (wind_source ?st) ''avewindspd''
      \<and> dict_get m ''maxgust'' = dict_get (wind_source ?st) ''maxgust''
      \<and> dict_get m ''ttlwindmiles'' = dict_get (wind_source ?st) ''ttlwindmiles''
      \<and> (\<forall>k \<in> {''newsnow'', ''depth'', ''ttlsnowfall''}.
            dict_get m k
              = (if py_truthy (dict_get (temp_source ?st) k)
                 then dict_get (temp_source ?st) k
                 else dict_get (wind_source ?st) k)
          \<and> (\<not> py_truthy (dict_get (temp_source ?st) k)
               \<and> \<not> py_truthy (dict_get (wind_source ?st) k)
               \<longrightarrow> \<not> py_truthy (dict_get m k)))" by (elim conjE)
  note M' = M [THEN spec, THEN mp, OF refl, unfolded ts ws]
  from M' have m1: "dict_get (raymer_merged raymer_temp_station raymer_wind_station) ''maxtemp''
          = dict_get raymer_temp_station ''maxtemp''" by (elim conjE)
  from M' have m2: "dict_get (raymer_merged raymer_temp_station raymer_wind_station) ''maxgust''
          = dict_get raymer_wind_station ''maxgust''" by (elim conjE)
  from M' have m3: "\<forall>k \<in> {''newsnow'', ''depth'', ''ttlsnowfall''}.
            dict_get (raymer_merged raymer_temp_station raymer_wind_station) k
              = (if py_truthy (dict_get raymer_temp_station k)
                 then dict_get raymer_temp_station k
                 else dict_get raymer_wind_station k)
          \<and> (\<not> py_truthy (dict_get raymer_temp_station k)
               \<and> \<not> py_truthy (dict_get raymer_wind_station k)
               \<longrightarrow> \<not> py_truthy (dict_get (raymer_merged raymer_temp_station raymer_wind_station) k))"
    by (elim conjE)
  have "''newsnow'' \<in> {''newsnow'', ''depth'', ''ttlsnowfall''}" by simp
  from m3 [THEN bspec, OF this, THEN conjunct1]
  have m4: "dict_get (raymer_merged raymer_temp_station raymer_wind_station) ''newsnow'' = PNone"
    by (simp add: e)
  show ?thesis
    by (intro conjI ts ws m4) (simp_all only: m1 m2 e)
qed

text \<open>
  C2 as stated fails on a value that is present but false: the temperature source reports
  the number 0 for \<^verbatim>\<open>newsnow\<close>, and the merged record takes the 3 of the wind source.
\<close>

theorem raymer_zero_snow_overridden:
  "dict_get (temp_source [raymer_temp_zero, raymer_wind_three]) ''newsnow'' = PInt 0
   \<and> dict_get (raymer_merged (temp_source [raymer_temp_zero, raymer_wind_three])
        (wind_source [raymer_temp_zero, raymer_wind_three])) ''newsnow'' = PInt 3"
  by code_simp

text \<open>
  A row built from a selected station holds the empty string for every key the station
  lacks; the merged Raymer record lacks no key, and holds \<^verbatim>\<open>None\<close> where a source does.
\<close>

lemma new_row_absent_fields:
  "map_of st ''newsnow'' = None \<Longrightarrow> NewSno (new_row pd ds n st) = PStr []"
  "map_of st ''depth'' = None \<Longrightarrow> SnoDepth (new_row pd ds n st) = PStr []"
  "map_of st ''ttlsnowfall'' = None \<Longrightarrow> SnoFall_Tot (new_row pd ds n st) = PStr []"
  "map_of st ''maxtemp'' = None \<Longrightarrow> Max_Temp (new_row pd ds n st) = PStr []"
  "map_of st ''mintemp'' = None \<Longrightarrow> Min_Temp (new_row pd ds n st) = PStr []"
  "map_of st ''avewindspd'' = None \<Longrightarrow> AvgWind (new_row pd ds n st) = PStr []"
  "map_of st ''maxgust'' = None \<Longrightarrow> MaxGust (new_row pd ds n st) = PStr []"
  "map_of st ''ttlwindmiles'' = None \<Longrightarrow> TotalWind (new_row pd ds n st) = PStr []"
  by (simp_all add: new_row_def dict_get_default_def)

lemma raymer_merged_absent_source:
  "map_of a ''maxtemp'' = None \<Longrightarrow>
     Max_Temp (new_row pd ds n (raymer_merged a b)) = PNone"
  "map_of a ''newsnow'' = None \<Longrightarrow> map_of b ''newsnow'' = None \<Longrightarrow>
     NewSno (new_row pd ds n (raymer_merged a b)) = PNone"
  by (simp_all add: new_row_def dict_get_default_def raymer_merged_def dict_get_def py_or_def)

text \<open>
  C3 on a temperature-only and a wind-only Raymer station. The Summit station has no snow
  key and its row holds empty strings; the Raymer sources have none either, and the Raymer
  row holds \<^verbatim>\<open>None\<close>: the merged record has every key, so the default of the row's \<^verbatim>\<open>get\<close>
  is never used.
\<close>

theorem raymer_row_null_fields:
  "process_data (PDict (payload [summit_station, raymer_temp_station, raymer_wind_station]))
     (dt 2026 11 2)
   = Inr [\<lparr>ProphixDate = ''2026D186'', Date = ''2026-11-02'', Location = ''Summit'',
           NewSno = PStr [], SnoDepth = PStr [], SnoFall_Tot = PStr [],
           Max_Temp = PInt 20, Min_Temp = PStr [], AvgWind = PStr [],
           MaxGust = PStr [], TotalWind = PStr []\<rparr>,
          \<lparr>ProphixDate = ''2026D186'', Date = ''2026-11-02'', Location = ''Raymer'',
           NewSno = PNone, SnoDepth = PNone, SnoFall_Tot = PNone,
           Max_Temp = PInt 10, Min_Temp = PInt (- 3), AvgWind = PInt 12,
           MaxGust = PInt 40, TotalWind = PInt 200\<rparr>]"
  by code_simp

section \<open>Payloads without station records\<close>

text \<open>
  C5, as the code has it. A payload that is false in Python's sense, a JSON object without
  the key \<^verbatim>\<open>data\<close>, a list without the element \<^verbatim>\<open>data\<close> and a string that does not contain
  \<^verbatim>\<open>data\<close> all give zero rows and no exception, for every date.
\<close>

theorem process_data_without_data:
  assumes "\<not> py_truthy p
           \<or> (\<exists>kvs. p = PDict kvs \<and> map_of kvs ''data'' = None)
           \<or> (\<exists>xs. p = PList xs \<and> PStr ''data'' \<notin> set xs)
           \<or> (\<exists>s. p = PStr s \<and> \<not> sublist ''data'' s)"
  shows "process_data p d = Inr []"
  using assms by (auto simp: process_data_def)

theorem process_data_without_data_witness:
  "process_data PNone (dt 2026 11 2) = Inr []
   \<and> process_data (PDict []) (dt 2026 11 2) = Inr []
   \<and> process_data (PDict [(''error'', PStr ''unknown day'')]) (dt 2026 11 2) = Inr []"
proof -
  have a: "\<not> py_truthy PNone" and b: "\<not> py_truthy (PDict [])" by simp_all
  have c: "\<exists>kvs. PDict [(''error'', PStr ''unknown day'')] = PDict kvs \<and> map_of kvs ''data'' = None"
    by simp
  show ?thesis
    using process_data_without_data [of PNone "dt 2026 11 2"]
      process_data_without_data [of "PDict []" "dt 2026 11 2"]
      process_data_without_data [of "PDict [(''error'', PStr ''unknown day'')]" "dt 2026 11 2"]
      a b c
    by blast
qed

text \<open>
  C5 as stated, for every input, fails on a payload that is true and has no keys at all:
  the number 5 does not support the test \<^verbatim>\<open>'data' not in\<close>.
\<close>

theorem process_data_number_payload: "process_data (PInt 5) (dt 2026 11 2) = Inl TypeError"
  by code_simp

section \<open>The order of the rows\<close>

lemma scan_targets_subseq:
  "scan_targets pd ds m rows ts acc = Inr out \<Longrightarrow>
     \<exists>new. out = acc @ new \<and> subseq (map Location new) (map fst ts)"
proof (induction ts arbitrary: acc)
  case Nil
  then show ?case by simp
next
  case (Cons t ts)
  from Cons.prems obtain found where f: "find_station m rows t = Inr found"
    by (auto split: sum.splits)
  show ?case
  proof (cases "\<exists>st. found = Some st \<and> st \<noteq> []")
    case True
    then obtain st where st: "found = Some st" "st \<noteq> []" by blast
    with Cons.prems f have
      "scan_targets pd ds m rows ts (acc @ [new_row pd ds (fst t) st]) = Inr out"
      by simp
    from Cons.IH [OF this] obtain new where
      n: "out = (acc @ [new_row pd ds (fst t) st]) @ new" "subseq (map Location new) (map fst ts)"
      by blast
    have "Location (new_row pd ds (fst t) st) = fst t" by (simp add: new_row_def)
    with n(2) have "subseq (map Location (new_row pd ds (fst t) st # new)) (map fst (t # ts))"
      by simp
    with n(1) show ?thesis by (intro exI [of _ "new_row pd ds (fst t) st # new"]) simp
  next
    case False
    with Cons.prems f have "scan_targets pd ds m rows ts acc = Inr out"
      by (cases found) (auto split: if_splits)
    from Cons.IH [OF this] obtain new where
      n: "out = acc @ new" "subseq (map Location new) (map fst ts)" by blast
    from n(2) have "subseq (map Location new) (map fst (t # ts))"
      by (simp add: list_emb_Cons)
    with n(1) show ?thesis by blast
  qed
qed

lemma target_names:
  "map fst target_defs = [''Summit'', ''RV_Bowl'', ''Raymer'', ''MidMtn'', ''Buff'', ''Base'']"
  by (simp add: target_defs_def)

lemma process_data_subseq:
  assumes "process_data p d = Inr rows"
  shows "subseq (map Location rows) (map fst target_defs)"
proof (cases "\<exists>m rs. scan_targets (projr (get_prophix_date d)) (strftime_ymd d) m rs target_defs []
                        = Inr rows")
  case True
  then obtain m rs where
    "scan_targets (projr (get_prophix_date d)) (strftime_ymd d) m rs target_defs [] = Inr rows"
    by blast
  from scan_targets_subseq [OF this] show ?thesis by simp
next
  case False
  with assms have "rows = []"
    by (auto simp: process_data_def split: if_splits sum.splits)
  then show ?thesis by simp
qed

lemma process_data_code:
  assumes "payload_of kvs stations" and "process_data (PDict kvs) d = Inr rows"
  shows "\<exists>code. get_prophix_date d = Inr code"
proof (cases "get_prophix_date d")
  case (Inl e)
  from assms(1) have m: "map_of kvs ''data'' = Some (PList (map PDict stations))"
    by (simp add: payload_of_def)
  then have "kvs \<noteq> []" by auto
  with m Inl assms(2) show ?thesis by (simp add: process_data_def)
next
  case (Inr code)
  then show ?thesis by blast
qed

text \<open>
  C9. Whatever the payload, the locations of the returned rows are a subsequence of the
  fixed target order. For a payload whose \<^verbatim>\<open>data\<close> is a list of records, reordering the
  records leaves the sequence of locations as it is.
\<close>

theorem rows_follow_target_order:
  "(process_data p d = Inr rows \<longrightarrow>
      subseq (map Location rows) [''Summit'', ''RV_Bowl'', ''Raymer'', ''MidMtn'', ''Buff'', ''Base''])
   \<and> (payload_of kvs stations \<and> payload_of kvs' stations' \<and> mset stations' = mset stations
        \<and> process_data (PDict kvs) d = Inr rows \<longrightarrow>
       (\<exists>rows'. process_data (PDict kvs') d = Inr rows'
                \<and> map Location rows' = map Location rows))"
proof (intro conjI impI)
  assume "process_data p d = Inr rows"
  from process_data_subseq [OF this] show
    "subseq (map Location rows) [''Summit'', ''RV_Bowl'', ''Raymer'', ''MidMtn'', ''Buff'', ''Base'']"
    by (simp only: target_names)
next
  assume a: "payload_of kvs stations \<and> payload_of kvs' stations' \<and> mset stations' = mset stations
        \<and> process_data (PDict kvs) d = Inr rows"
  then have p: "payload_of kvs stations" and p': "payload_of kvs' stations'"
    and s: "set stations' = set stations" and r: "process_data (PDict kvs) d = Inr rows"
    by (auto dest: mset_eq_setD)
  from process_data_code [OF p r] obtain code where c: "get_prophix_date d = Inr code" ..
  from r process_data_dicts [OF p c]
  have rows: "rows = concat (map (target_rows code (strftime_ymd d) stations) target_defs)"
    by simp
  let ?rows' = "concat (map (target_rows code (strftime_ymd d) stations') target_defs)"
  have "map Location ?rows' = map Location rows"
    unfolding rows map_Location_concat [OF target_defs_merged] s ..
  with process_data_dicts [OF p' c] show
    "\<exists>rows'. process_data (PDict kvs') d = Inr rows' \<and> map Location rows' = map Location rows"
    by blast
qed

text \<open>
  Two stations in either order: the rows are those of Summit, Raymer and Base both times.
\<close>

theorem rows_follow_target_order_witness:
  "\<exists>rows rows'.
     process_data (PDict (payload [base_station, summit_station])) (dt 2026 11 2) = Inr rows
     \<and> process_data (PDict (payload [summit_station, base_station])) (dt 2026 11 2) = Inr rows'
     \<and> map Location rows' = map Location rows
     \<and> map Location rows = [''Summit'', ''Raymer'', ''Base'']
     \<and> subseq (map Location rows) [''Summit'', ''RV_Bowl'', ''Raymer'', ''MidMtn'', ''Buff'', ''Base'']"
proof -
  let ?d = "dt 2026 11 2"
  let ?a = "[base_station, summit_station]" and ?b = "[summit_station, base_station]"
  have c: "get_prophix_date ?d = Inr ''2026D186''" by code_simp
  define rows where
    "rows = concat (map (target_rows ''2026D186'' (strftime_ymd ?d) ?a) target_defs)"
  have r: "process_data (PDict (payload ?a)) ?d = Inr rows"
    unfolding rows_def by (rule process_data_dicts [OF payload_of_payload c])
  have e: "map Location rows = [''Summit'', ''Raymer'', ''Base'']"
    unfolding rows_def by code_simp
  have m: "mset ?b = mset ?a" by simp
  note th = rows_follow_target_order [of "PDict (payload ?a)" ?d rows "payload ?a" ?a "payload ?b" ?b]
  note s = th [THEN conjunct1, THEN mp, OF r]
  note pa = payload_of_payload [of ?a] and pb = payload_of_payload [of ?b]
  from th [THEN conjunct2, THEN mp, OF conjI [OF pa conjI [OF pb conjI [OF m r]]]]
  obtain rows' where rl: "process_data (PDict (payload ?b)) ?d = Inr rows'
      \<and> map Location rows' = map Location rows" ..
  note r' = rl [THEN conjunct1] and l = rl [THEN conjunct2]
  show ?thesis
    by (intro exI [of _ rows] exI [of _ rows'] conjI r r' l e s)
qed

section \<open>The writer: results\<close>

lemma header_line:
  "join '','' cols
   = ''ProphixDate,Date,Location,NewSno,SnoDepth,SnoFall Tot,Max Temp,Min Temp,AvgWind,MaxGust,TotalWind''"
  by (simp add: cols_def)

lemma main_appends:
  assumes "py_truthy data" and "process_data data d = Inr rows" and "rows \<noteq> []"
    and "to_csv fmt rows (\<not> isfile (csv w)) (csv w) = Inr f"
  shows "\<exists>w'. main fmt (Some (data, d)) w = Inr w' \<and> csv w' = f"
  using assms by (simp add: main_def Let_def write_log_def)

text \<open>
  C8. A run of \<open>main\<close> whose mapper returns the rows \<open>rows\<close>, at least one, and whose table
  is not locked: when there is no table file, the file afterwards holds the header record
  and then one record for each row; when the file exists with the records \<open>recs\<close>, it holds
  \<open>recs\<close> and then one record for each row, and no header is added.
\<close>

theorem writer_header_only_for_new_file:
  assumes "py_truthy data" and "process_data data d = Inr rows" and "rows \<noteq> []"
  shows "(csv w = Absent \<longrightarrow>
            (\<exists>w'. main fmt (Some (data, d)) w = Inr w'
               \<and> csv w' = RegularFile False
                   (''ProphixDate,Date,Location,NewSno,SnoDepth,SnoFall Tot,Max Temp,Min Temp,AvgWind,MaxGust,TotalWind''
                      # map fmt rows)))
       \<and> (\<forall>recs. csv w = RegularFile False recs \<longrightarrow>
            (\<exists>w'. main fmt (Some (data, d)) w = Inr w'
               \<and> csv w' = RegularFile False (recs @ map fmt rows)))"
proof (intro conjI allI impI)
  assume a: "csv w = Absent"
  then have "to_csv fmt rows (\<not> isfile (csv w)) (csv w)
             = Inr (RegularFile False (join '','' cols # map fmt rows))"
    by simp
  from main_appends [OF assms this] show
    "\<exists>w'. main fmt (Some (data, d)) w = Inr w'
       \<and> csv w' = RegularFile False
           (''ProphixDate,Date,Location,NewSno,SnoDepth,SnoFall Tot,Max Temp,Min Temp,AvgWind,MaxGust,TotalWind''
              # map fmt rows)"
    by (simp only: header_line)
next
  fix recs assume a: "csv w = RegularFile False recs"
  then have "to_csv fmt rows (\<not> isfile (csv w)) (csv w)
             = Inr (RegularFile False (recs @ map fmt rows))"
    by simp
  from main_appends [OF assms this] show
    "\<exists>w'. main fmt (Some (data, d)) w = Inr w' \<and> csv w' = RegularFile False (recs @ map fmt rows)" .
qed

text \<open>
  A first run on a payload without stations writes the header and the Raymer row; a second
  run on the file of the first appends the Raymer row alone. Each record here is just the
  location of its row.
\<close>

theorem writer_header_only_for_new_file_witness:
  "(\<exists>w'. main Location (Some (PDict (payload []), dt 2026 11 2)) \<lparr>csv = Absent, log = []\<rparr> = Inr w'
      \<and> csv w' = RegularFile False
           [''ProphixDate,Date,Location,NewSno,SnoDepth,SnoFall Tot,Max Temp,Min Temp,AvgWind,MaxGust,TotalWind'',
            ''Raymer''])
   \<and> (\<exists>w'. main Location (Some (PDict (payload []), dt 2026 11 3))
         \<lparr>csv = RegularFile False
           [''ProphixDate,Date,Location,NewSno,SnoDepth,SnoFall Tot,Max Temp,Min Temp,AvgWind,MaxGust,TotalWind'',
            ''Raymer''], log = []\<rparr> = Inr w'
      \<and> csv w' = RegularFile False
           [''ProphixDate,Date,Location,NewSno,SnoDepth,SnoFall Tot,Max Temp,Min Temp,AvgWind,MaxGust,TotalWind'',
            ''Raymer'', ''Raymer''])"
proof -
  let ?h = "''ProphixDate,Date,Location,NewSno,SnoDepth,SnoFall Tot,Max Temp,Min Temp,AvgWind,MaxGust,TotalWind''"
  let ?p = "PDict (payload [])"
  define row where "row d = new_row (projr (get_prophix_date d)) (strftime_ymd d) ''Raymer''
                       (raymer_merged [] [])" for d
  have t: "py_truthy ?p" by (simp add: payload_def)
  have r1: "process_data ?p (dt 2026 11 2) = Inr [row (dt 2026 11 2)]"
    unfolding row_def by code_simp
  have r2: "process_data ?p (dt 2026 11 3) = Inr [row (dt 2026 11 3)]"
    unfolding row_def by code_simp
  have l: "Location (row d) = ''Raymer''" for d by (simp add: row_def new_row_def)
  have n: "[row d] \<noteq> []" for d by simp
  note a = writer_header_only_for_new_file [OF t r1 n, of "\<lparr>csv = Absent, log = []\<rparr>" Location,
      THEN conjunct1, THEN mp]
  note b = writer_header_only_for_new_file [OF t r2 n,
      of "\<lparr>csv = RegularFile False [?h, ''Raymer''], log = []\<rparr>" Location,
      THEN conjunct2, THEN spec, THEN mp]
  from a have A: "\<exists>w'. main Location (Some (?p, dt 2026 11 2)) \<lparr>csv = Absent, log = []\<rparr> = Inr w'
      \<and> csv w' = RegularFile False [?h, ''Raymer'']"
    by (simp add: l)
  from b [of "[?h, ''Raymer'']"] have B: "\<exists>w'. main Location (Some (?p, dt 2026 11 3))
         \<lparr>csv = RegularFile False [?h, ''Raymer''], log = []\<rparr> = Inr w'
      \<and> csv w' = RegularFile False [?h, ''Raymer'', ''Raymer'']"
    by (simp add: l)
  from A B show ?thesis by (rule conjI)
qed

end
